theory Spec2Isabelle
  imports Main "HOL-Library.Sublist"
begin

section \<open>JavaScript values, exceptions and the host object model\<close>

text \<open>
  The single source file \<^verbatim>\<open>src/app/src/color_legend_gradient.js\<close> exports one function,
  \<^verbatim>\<open>color_gradient(ctx)\<close>. Its argument is duck-typed: any JavaScript value can be passed.
  The values that matter are the primitives, and references to objects that live outside
  the function (the drawing context and the gradient objects it creates). The numeric
  literals of the source (0, 1, 5, 15, 180) are integers and no arithmetic is done on
  them, so numbers are modelled as \<^typ>\<open>int\<close>.
\<close>

datatype jsval = Undefined | Null | Num int | Str string | Obj nat

text \<open>
  An exception is either the \<^verbatim>\<open>TypeError\<close> that the JavaScript runtime raises when a member
  is read from \<^verbatim>\<open>null\<close>/\<^verbatim>\<open>undefined\<close>, when a value that is not callable is called, or when a
  property of a primitive is assigned in strict code (the file is an ES module), or an
  arbitrary value thrown by code of the host object.
\<close>

datatype exn = TypeError | Thrown jsval

text \<open>
  The drawing context is an external collaborator. Its state is an arbitrary type \<open>'w\<close>;
  a host describes, for that state, which members of which object are callable and how
  they behave, and what a property assignment does. Both a method and an assignment
  (a setter) may change the state and may throw. Reading a member for a call is taken
  to have no effect of its own, and primitives are taken to have none of the members
  the function uses.
\<close>

type_synonym 'w native = "jsval list \<Rightarrow> 'w \<Rightarrow> (exn + jsval) \<times> 'w"

record 'w host =
  method_of :: "'w \<Rightarrow> nat \<Rightarrow> string \<Rightarrow> 'w native option"
  put_prop :: "nat \<Rightarrow> string \<Rightarrow> jsval \<Rightarrow> 'w \<Rightarrow> (exn + jsval) \<times> 'w"

text \<open>
  What the function does to its environment is recorded as a trace: every method
  invocation and every property assignment it performs, with the outcome the host gave.
\<close>

datatype event =
    Invoke jsval string "jsval list"
  | Assign jsval string jsval

type_synonym trace = "(event \<times> (exn + jsval)) list"

type_synonym 'w st = "trace \<times> 'w"

type_synonym ('a, 'w) prog = "'w st \<Rightarrow> (exn + 'a) \<times> 'w st"

definition return_js :: "'a \<Rightarrow> ('a, 'w) prog" where
  "return_js v s = (Inr v, s)"

text \<open>Sequencing: an exception ends the run, nothing in the source catches one.\<close>

definition bind_js :: "('a, 'w) prog \<Rightarrow> ('a \<Rightarrow> ('b, 'w) prog) \<Rightarrow> ('b, 'w) prog" where
  "bind_js m k s = (case m s of
      (Inl e, s') \<Rightarrow> (Inl e, s')
    | (Inr v, s') \<Rightarrow> k v s')"

text \<open>
  \<^verbatim>\<open>target.name(args)\<close>: the member is looked up on the target, a target that is not an
  object or a member that is not callable gives the runtime's \<^verbatim>\<open>TypeError\<close> without any
  invocation; otherwise the method runs and the invocation is recorded.
\<close>

definition call_method :: "'w host \<Rightarrow> jsval \<Rightarrow> string \<Rightarrow> jsval list \<Rightarrow> (jsval, 'w) prog" where
  "call_method h target name args s = (case target of
      Obj a \<Rightarrow> (case method_of h (snd s) a name of
          None \<Rightarrow> (Inl TypeError, s)
        | Some f \<Rightarrow> (case f args (snd s) of
            (r, w') \<Rightarrow> (r, (fst s @ [(Invoke target name args, r)], w'))))
    | _ \<Rightarrow> (Inl TypeError, s))"

text \<open>
  \<^verbatim>\<open>target.name = v\<close>: assigning to a property of something that is not an object is the
  runtime's \<^verbatim>\<open>TypeError\<close>; otherwise the host performs the assignment (a setter may
  throw) and the assignment is recorded. The source does not use the value of the
  assignment expression.
\<close>

definition assign_prop :: "'w host \<Rightarrow> jsval \<Rightarrow> string \<Rightarrow> jsval \<Rightarrow> (jsval, 'w) prog" where
  "assign_prop h target name v s = (case target of
      Obj a \<Rightarrow> (case put_prop h a name v (snd s) of
          (r, w') \<Rightarrow> (r, (fst s @ [(Assign target name v, r)], w')))
    | _ \<Rightarrow> (Inl TypeError, s))"

section \<open>The function \<^verbatim>\<open>color_gradient\<close>\<close>

text \<open>
  \<^verbatim>\<open>
  export function color_gradient(ctx) {
  const gradient = ctx.createLinearGradient(0, 0, 0, 180);
  gradient.addColorStop(0, "red");
  gradient.addColorStop(1, "black");
  ctx.fillStyle = gradient;
  ctx.fillRect(5, 0, 15, 180);
  return(ctx);
  }
  \<close>
\<close>

definition color_gradient :: "'w host \<Rightarrow> jsval \<Rightarrow> (jsval, 'w) prog" where
  "color_gradient h ctx =
     bind_js (call_method h ctx ''createLinearGradient'' [Num 0, Num 0, Num 0, Num 180])
       (\<lambda>gradient.
     bind_js (call_method h gradient ''addColorStop'' [Num 0, Str ''red''])
       (\<lambda>_.
     bind_js (call_method h gradient ''addColorStop'' [Num 1, Str ''black''])
       (\<lambda>_.
     bind_js (assign_prop h ctx ''fillStyle'' gradient)
       (\<lambda>_.
     bind_js (call_method h ctx ''fillRect'' [Num 5, Num 0, Num 15, Num 180])
       (\<lambda>_.
     return_js ctx)))))"

text \<open>One call of the function, observed from an empty trace.\<close>

definition run :: "'w host \<Rightarrow> jsval \<Rightarrow> 'w \<Rightarrow> (exn + jsval) \<times> 'w st" where
  "run h ctx w = color_gradient h ctx ([], w)"

definition result_of :: "(exn + jsval) \<times> 'w st \<Rightarrow> exn + jsval" where
  "result_of r = fst r"

definition trace_of :: "(exn + jsval) \<times> 'w st \<Rightarrow> trace" where
  "trace_of r = fst (snd r)"

definition world_of :: "(exn + jsval) \<times> 'w st \<Rightarrow> 'w" where
  "world_of r = snd (snd r)"

definition events_of :: "(exn + jsval) \<times> 'w st \<Rightarrow> event list" where
  "events_of r = map fst (trace_of r)"

section \<open>Reading a trace\<close>

text \<open>
  The five effectful statements of the source, in program order, for a context \<open>ctx\<close>
  and the value \<open>g\<close> that \<^verbatim>\<open>createLinearGradient\<close> returned.
\<close>

definition script_rest :: "jsval \<Rightarrow> jsval \<Rightarrow> event list" where
  "script_rest ctx g =
    [Invoke g ''addColorStop'' [Num 0, Str ''red''],
     Invoke g ''addColorStop'' [Num 1, Str ''black''],
     Assign ctx ''fillStyle'' g,
     Invoke ctx ''fillRect'' [Num 5, Num 0, Num 15, Num 180]]"

definition script :: "jsval \<Rightarrow> jsval \<Rightarrow> event list" where
  "script ctx g =
     Invoke ctx ''createLinearGradient'' [Num 0, Num 0, Num 0, Num 180] # script_rest ctx g"

text \<open>The invocations of the method called \<open>name\<close>: receiver and arguments, in order.\<close>

fun invocation :: "string \<Rightarrow> event \<Rightarrow> (jsval \<times> jsval list) list" where
  "invocation name (Invoke t n args) = (if n = name then [(t, args)] else [])"
| "invocation name (Assign t n v) = []"

definition invocations :: "string \<Rightarrow> event list \<Rightarrow> (jsval \<times> jsval list) list" where
  "invocations name evs = concat (map (invocation name) evs)"

text \<open>The methods invoked on the receiver \<open>t\<close>, by name, in order.\<close>

fun method_on :: "jsval \<Rightarrow> event \<Rightarrow> string list" where
  "method_on t (Invoke t' n args) = (if t' = t then [n] else [])"
| "method_on t (Assign t' n v) = []"

definition methods_on :: "jsval \<Rightarrow> event list \<Rightarrow> string list" where
  "methods_on t evs = concat (map (method_on t) evs)"

text \<open>The property assignments: object, property name and assigned value, in order.\<close>

fun assignment :: "event \<Rightarrow> (jsval \<times> string \<times> jsval) list" where
  "assignment (Assign t n v) = [(t, n, v)]"
| "assignment (Invoke t n args) = []"

definition assignments :: "event list \<Rightarrow> (jsval \<times> string \<times> jsval) list" where
  "assignments evs = concat (map assignment evs)"

text \<open>The values that invocations of \<^verbatim>\<open>createLinearGradient\<close> returned.\<close>

fun created :: "event \<times> (exn + jsval) \<Rightarrow> jsval list" where
  "created (Invoke t n args, Inr g) = (if n = ''createLinearGradient'' then [g] else [])"
| "created (Invoke t n args, Inl x) = []"
| "created (Assign t n v, out) = []"

definition created_gradients :: "trace \<Rightarrow> jsval list" where
  "created_gradients tr = concat (map created tr)"

text \<open>The part of a list that comes strictly before the first occurrence of \<open>e\<close>.\<close>

definition before :: "'a \<Rightarrow> 'a list \<Rightarrow> 'a list" where
  "before e xs = takeWhile (\<lambda>x. x \<noteq> e) xs"

text \<open>
  Whether the runtime can perform a statement at all in a given state: the receiver is
  an object and, for a call, the member is callable.
\<close>

fun can_do :: "'w host \<Rightarrow> 'w \<Rightarrow> event \<Rightarrow> bool" where
  "can_do h w (Invoke (Obj a) n args) = (case method_of h w a n of None \<Rightarrow> False | Some f \<Rightarrow> True)"
| "can_do h w (Invoke Undefined n args) = False"
| "can_do h w (Invoke Null n args) = False"
| "can_do h w (Invoke (Num i) n args) = False"
| "can_do h w (Invoke (Str s) n args) = False"
| "can_do h w (Assign (Obj a) n v) = True"
| "can_do h w (Assign Undefined n v) = False"
| "can_do h w (Assign Null n v) = False"
| "can_do h w (Assign (Num i) n v) = False"
| "can_do h w (Assign (Str s) n v) = False"

text \<open>
  A trace \<open>tr\<close> with result \<open>r\<close> follows a list of statements when it is a run of them
  in order that ends at the first failure: a statement the runtime cannot perform
  (no event, \<^verbatim>\<open>TypeError\<close>), or one for which the host threw (that exception), and
  otherwise returns \<open>ctx\<close> after the last statement.
\<close>

fun follows :: "'w host \<Rightarrow> 'w \<Rightarrow> event list \<Rightarrow> jsval \<Rightarrow> trace \<Rightarrow> exn + jsval \<Rightarrow> bool" where
  "follows h w' [] ctx tr r = (tr = [] \<and> r = Inr ctx)"
| "follows h w' (e # es) ctx [] r = (r = Inl TypeError \<and> \<not> can_do h w' e)"
| "follows h w' (e # es) ctx ((e', Inl x) # tr) r = (e' = e \<and> tr = [] \<and> r = Inl x)"
| "follows h w' (e # es) ctx ((e', Inr v) # tr) r = (e' = e \<and> follows h w' es ctx tr r)"

text \<open>Two calls in a row on the same context: the second starts where the first ended.\<close>

definition run_twice ::
  "'w host \<Rightarrow> jsval \<Rightarrow> 'w \<Rightarrow> ((exn + jsval) \<times> 'w st) \<times> ((exn + jsval) \<times> 'w st)" where
  "run_twice h ctx w = (run h ctx w, run h ctx (world_of (run h ctx w)))"

section \<open>A recording canvas\<close>

text \<open>
  A concrete host on which the function can be run: one context object at reference 0,
  gradient objects allocated at fresh references by \<^verbatim>\<open>createLinearGradient\<close>, each keeping
  its endpoints and its colour stops, the properties of the context in a map, and every
  painted rectangle kept with the fill style of that moment and, when that is a
  gradient, the stops it had then. Any operation can be made to throw by naming it in
  \<open>faults\<close>.
\<close>

record gradient_obj =
  endpoints :: "jsval list"
  stops :: "jsval list list"

record canvas =
  next_ref :: nat
  gradients :: "nat \<rightharpoonup> gradient_obj"
  props :: "string \<rightharpoonup> jsval"
  painted :: "(jsval list \<times> jsval option \<times> jsval list list) list"

definition stops_of :: "canvas \<Rightarrow> jsval option \<Rightarrow> jsval list list" where
  "stops_of w p = (case p of
      Some (Obj b) \<Rightarrow> (case gradients w b of Some g \<Rightarrow> stops g | None \<Rightarrow> [])
    | _ \<Rightarrow> [])"

definition canvas_createLinearGradient :: "canvas native" where
  "canvas_createLinearGradient args w =
     (Inr (Obj (next_ref w)),
      w\<lparr>next_ref := Suc (next_ref w),
        gradients := (gradients w)(next_ref w \<mapsto> \<lparr>endpoints = args, stops = []\<rparr>)\<rparr>)"

definition canvas_addColorStop :: "nat \<Rightarrow> canvas native" where
  "canvas_addColorStop b args w = (case gradients w b of
      None \<Rightarrow> (Inl TypeError, w)
    | Some g \<Rightarrow> (Inr Undefined, w\<lparr>gradients := (gradients w)(b \<mapsto> g\<lparr>stops := stops g @ [args]\<rparr>)\<rparr>))"

definition canvas_fillRect :: "canvas native" where
  "canvas_fillRect args w =
     (Inr Undefined,
      w\<lparr>painted := painted w @ [(args, props w ''fillStyle'', stops_of w (props w ''fillStyle''))]\<rparr>)"

definition canvas_method :: "(string \<rightharpoonup> exn) \<Rightarrow> canvas \<Rightarrow> nat \<Rightarrow> string \<Rightarrow> canvas native option" where
  "canvas_method faults w a n =
     (if a = 0 then
        (if n = ''createLinearGradient'' then
           Some (case faults n of Some x \<Rightarrow> (\<lambda>args w. (Inl x, w)) | None \<Rightarrow> canvas_createLinearGradient)
         else if n = ''fillRect'' then
           Some (case faults n of Some x \<Rightarrow> (\<lambda>args w. (Inl x, w)) | None \<Rightarrow> canvas_fillRect)
         else None)
      else (case gradients w a of
          None \<Rightarrow> None
        | Some g \<Rightarrow>
            (if n = ''addColorStop'' then
               Some (case faults n of Some x \<Rightarrow> (\<lambda>args w. (Inl x, w)) | None \<Rightarrow> canvas_addColorStop a)
             else None)))"

text \<open>
  As on a real 2D context, assigning to \<^verbatim>\<open>fillStyle\<close> a value that cannot be a paint (a
  number, \<^verbatim>\<open>null\<close>, \<^verbatim>\<open>undefined\<close>) returns normally and leaves the fill style as it was.
\<close>

definition canvas_accepts :: "string \<Rightarrow> jsval \<Rightarrow> bool" where
  "canvas_accepts n v = (case v of
      Str s \<Rightarrow> True
    | Obj b \<Rightarrow> True
    | _ \<Rightarrow> n \<noteq> ''fillStyle'')"

definition canvas_put :: "(string \<rightharpoonup> exn) \<Rightarrow> nat \<Rightarrow> string \<Rightarrow> jsval \<Rightarrow> canvas \<Rightarrow> (exn + jsval) \<times> canvas" where
  "canvas_put faults a n v w = (case faults n of
      Some x \<Rightarrow> (Inl x, w)
    | None \<Rightarrow> (if a = 0 \<and> canvas_accepts n v
               then (Inr v, w\<lparr>props := (props w)(n \<mapsto> v)\<rparr>)
               else (Inr v, w)))"

definition canvas_host :: "(string \<rightharpoonup> exn) \<Rightarrow> canvas host" where
  "canvas_host faults = \<lparr>method_of = canvas_method faults, put_prop = canvas_put faults\<rparr>"

definition canvas0 :: canvas where
  "canvas0 = \<lparr>next_ref = 1, gradients = Map.empty,
      props = [''fillStyle'' \<mapsto> Str ''#000000'', ''strokeStyle'' \<mapsto> Str ''#0000ff''],
      painted = []\<rparr>"

section \<open>Runs of the function follow the script\<close>

lemma follows_return:
  "return_js ctx s = (r, s') \<Longrightarrow> \<exists>tr. fst s' = fst s @ tr \<and> follows h (snd s') [] ctx tr r"
  by (auto simp: return_js_def)

lemma follows_call_dep:
  assumes b: "bind_js (call_method h t n args) k s = (r, s')"
    and k: "\<And>u s1 r s'. k u s1 = (r, s') \<Longrightarrow>
              \<exists>tr. fst s' = fst s1 @ tr \<and> follows h (snd s') (es u) ctx tr r"
  shows "\<exists>tr. fst s' = fst s @ tr \<and>
     ((tr = [] \<and> r = Inl TypeError \<and> snd s' = snd s \<and> \<not> can_do h (snd s) (Invoke t n args))
    \<or> (\<exists>x. tr = [(Invoke t n args, Inl x)] \<and> r = Inl x)
    \<or> (\<exists>u tr'. tr = (Invoke t n args, Inr u) # tr' \<and> follows h (snd s') (es u) ctx tr' r))"
proof -
  obtain r1 s1 where c: "call_method h t n args s = (r1, s1)"
    by (cases "call_method h t n args s") auto
  show ?thesis
  proof (cases r1)
    case (Inl x)
    with c b have "r = Inl x" "s' = s1" by (auto simp: bind_js_def)
    with c Inl show ?thesis
      by (cases t) (auto simp: call_method_def split: option.splits prod.splits)
  next
    case (Inr u)
    with c b have "k u s1 = (r, s')" by (auto simp: bind_js_def)
    from k[OF this] obtain tr where tr: "fst s' = fst s1 @ tr" "follows h (snd s') (es u) ctx tr r"
      by blast
    from c Inr have "fst s1 = fst s @ [(Invoke t n args, Inr u)]"
      by (cases t) (auto simp: call_method_def split: option.splits prod.splits)
    with tr show ?thesis by auto
  qed
qed

lemma follows_call:
  assumes b: "bind_js (call_method h t n args) k s = (r, s')"
    and k: "\<And>u s1 r s'. k u s1 = (r, s') \<Longrightarrow>
              \<exists>tr. fst s' = fst s1 @ tr \<and> follows h (snd s') es ctx tr r"
  shows "\<exists>tr. fst s' = fst s @ tr \<and> follows h (snd s') (Invoke t n args # es) ctx tr r"
proof -
  have "\<exists>tr. fst s' = fst s @ tr \<and>
     ((tr = [] \<and> r = Inl TypeError \<and> snd s' = snd s \<and> \<not> can_do h (snd s) (Invoke t n args))
    \<or> (\<exists>x. tr = [(Invoke t n args, Inl x)] \<and> r = Inl x)
    \<or> (\<exists>u tr'. tr = (Invoke t n args, Inr u) # tr' \<and> follows h (snd s') es ctx tr' r))"
    by (rule follows_call_dep[where k = k and es = "\<lambda>_. es"], rule b, rule k, assumption)
  then show ?thesis by auto
qed

lemma follows_assign:
  assumes b: "bind_js (assign_prop h t n v) k s = (r, s')"
    and k: "\<And>u s1 r s'. k u s1 = (r, s') \<Longrightarrow>
              \<exists>tr. fst s' = fst s1 @ tr \<and> follows h (snd s') es ctx tr r"
  shows "\<exists>tr. fst s' = fst s @ tr \<and> follows h (snd s') (Assign t n v # es) ctx tr r"
proof -
  obtain r1 s1 where c: "assign_prop h t n v s = (r1, s1)"
    by (cases "assign_prop h t n v s") auto
  show ?thesis
  proof (cases r1)
    case (Inl x)
    with c b have "r = Inl x" "s' = s1" by (auto simp: bind_js_def)
    with c Inl show ?thesis
      by (cases t) (auto simp: assign_prop_def split: option.splits prod.splits)
  next
    case (Inr u)
    with c b have "k u s1 = (r, s')" by (auto simp: bind_js_def)
    from k[OF this] obtain tr where tr: "fst s' = fst s1 @ tr" "follows h (snd s') es ctx tr r"
      by blast
    from c Inr have "fst s1 = fst s @ [(Assign t n v, Inr u)]"
      by (cases t) (auto simp: assign_prop_def split: option.splits prod.splits)
    with tr show ?thesis by auto
  qed
qed

text \<open>
  Every run of the function is of one of three kinds: the runtime cannot call
  \<^verbatim>\<open>ctx.createLinearGradient\<close> at all; the host's \<^verbatim>\<open>createLinearGradient\<close> threw; or it
  returned some \<open>g\<close> and the run goes on along the other four statements.
\<close>

lemma run_cases:
  obtains
    (no_method) "trace_of (run h ctx w) = []" "result_of (run h ctx w) = Inl TypeError"
       "world_of (run h ctx w) = w"
       "\<not> can_do h w (Invoke ctx ''createLinearGradient'' [Num 0, Num 0, Num 0, Num 180])"
  | (threw) x where
       "trace_of (run h ctx w) =
          [(Invoke ctx ''createLinearGradient'' [Num 0, Num 0, Num 0, Num 180], Inl x)]"
       "result_of (run h ctx w) = Inl x"
  | (created) g tr' where
       "trace_of (run h ctx w) =
          (Invoke ctx ''createLinearGradient'' [Num 0, Num 0, Num 0, Num 180], Inr g) # tr'"
       "follows h (world_of (run h ctx w)) (script_rest ctx g) ctx tr' (result_of (run h ctx w))"
proof -
  obtain r s' where rs: "color_gradient h ctx ([], w) = (r, s')"
    by (cases "color_gradient h ctx ([], w)") auto
  have "\<exists>tr. fst s' = fst ([]::trace, w) @ tr \<and>
     ((tr = [] \<and> r = Inl TypeError \<and> snd s' = snd ([]::trace, w)
        \<and> \<not> can_do h (snd ([]::trace, w))
              (Invoke ctx ''createLinearGradient'' [Num 0, Num 0, Num 0, Num 180]))
    \<or> (\<exists>x. tr = [(Invoke ctx ''createLinearGradient'' [Num 0, Num 0, Num 0, Num 180], Inl x)]
          \<and> r = Inl x)
    \<or> (\<exists>u tr'. tr = (Invoke ctx ''createLinearGradient'' [Num 0, Num 0, Num 0, Num 180], Inr u) # tr'
          \<and> follows h (snd s') (script_rest ctx u) ctx tr' r))"
    apply (rule follows_call_dep[where k = "\<lambda>gradient.
       bind_js (call_method h gradient ''addColorStop'' [Num 0, Str ''red''])
         (\<lambda>_. bind_js (call_method h gradient ''addColorStop'' [Num 1, Str ''black''])
         (\<lambda>_. bind_js (assign_prop h ctx ''fillStyle'' gradient)
         (\<lambda>_. bind_js (call_method h ctx ''fillRect'' [Num 5, Num 0, Num 15, Num 180])
         (\<lambda>_. return_js ctx))))"])
    unfolding script_rest_def
    using rs apply (simp add: color_gradient_def)
    apply (erule follows_call)
    apply (erule follows_call)
    apply (erule follows_assign)
    apply (erule follows_call)
    apply (erule follows_return)
    done
  with rs that show ?thesis
    by (auto simp add: run_def trace_of_def result_of_def world_of_def)
qed

subsection \<open>What following a list of statements gives\<close>

lemma follows_prefix: "follows h w' es ctx tr r \<Longrightarrow> prefix (map fst tr) es"
  by (induction h w' es ctx tr r rule: follows.induct) auto

lemma follows_returns:
  "follows h w' es ctx tr (Inr v) \<Longrightarrow> map fst tr = es \<and> v = ctx"
  by (induction h w' es ctx tr "Inr v :: exn + jsval" rule: follows.induct) auto

lemma follows_propagates:
  "follows h w' es ctx tr r \<Longrightarrow> (e, Inl x) \<in> set tr \<Longrightarrow> r = Inl x"
  by (induction h w' es ctx tr r rule: follows.induct) auto

lemma follows_error_origin:
  "follows h w' es ctx tr (Inl x) \<Longrightarrow>
     (tr \<noteq> [] \<and> snd (last tr) = Inl x)
   \<or> (x = TypeError \<and> length tr < length es \<and> \<not> can_do h w' (es ! length tr))"
  by (induction h w' es ctx tr "Inl x :: exn + jsval" rule: follows.induct) auto

lemma follows_butlast:
  "follows h w' es ctx tr r \<Longrightarrow> (e, out) \<in> set (butlast tr) \<Longrightarrow> \<exists>u. out = Inr u"
  by (induction h w' es ctx tr r rule: follows.induct) (auto split: if_splits)


lemma created_other:
  "n \<noteq> ''createLinearGradient'' \<Longrightarrow> created (Invoke t n args, out) = []"
  by (cases out) auto

text \<open>The whole trace of a call that returns.\<close>

lemma run_returns:
  assumes "result_of (run h ctx w) = Inr v"
  obtains g where "events_of (run h ctx w) = script ctx g"
    "created_gradients (trace_of (run h ctx w)) = [g]" "v = ctx"
proof (cases rule: run_cases[of h ctx w])
  case no_method
  with assms show ?thesis by simp
next
  case (threw x)
  with assms show ?thesis by simp
next
  case (created g tr')
  from created(2) assms have f: "follows h (world_of (run h ctx w)) (script_rest ctx g) ctx tr' (Inr v)"
    by simp
  from follows_returns[OF f] have ev: "map fst tr' = script_rest ctx g" and v: "v = ctx" by simp_all
  have "created_gradients tr' = []"
    using ev by (auto simp: script_rest_def created_gradients_def map_eq_Cons_conv created_other)
  with created(1) ev v that[of g] show ?thesis
    by (simp add: events_of_def script_def created_gradients_def)
qed

text \<open>The trace of any call, returning or not, is an initial part of the script.\<close>

lemma run_prefix:
  obtains g where "prefix (events_of (run h ctx w)) (script ctx g)"
    "set (created_gradients (trace_of (run h ctx w))) \<subseteq> {g}"
    "length (trace_of (run h ctx w)) \<le> 1 \<or> created_gradients (trace_of (run h ctx w)) = [g]"
proof (cases rule: run_cases[of h ctx w])
  case no_method
  with that[of Undefined] show ?thesis by (simp add: events_of_def created_gradients_def)
next
  case (threw x)
  with that[of Undefined] show ?thesis
    by (simp add: events_of_def created_gradients_def script_def)
next
  case (created g tr')
  from follows_prefix[OF created(2)] have p: "prefix (map fst tr') (script_rest ctx g)" .
  then obtain zs where zs: "script_rest ctx g = map fst tr' @ zs" by (auto simp: prefix_def)
  have "created_gradients tr' = []"
    using zs
    by (auto simp: script_rest_def created_gradients_def append_eq_Cons_conv
          map_eq_Cons_conv Cons_eq_append_conv created_other)
  with created(1) p that[of g] show ?thesis
    by (simp add: events_of_def script_def created_gradients_def)
qed


subsection \<open>Reading prefixes of the script\<close>



lemma assignments_append:
  "assignments (xs @ ys) = assignments xs @ assignments ys"
  by (simp add: assignments_def)

lemma assignments_prefix:
  "prefix xs ys \<Longrightarrow> prefix (assignments xs) (assignments ys)"
  by (auto simp: prefix_def assignments_append)

lemma invocations_script_addColorStop:
  "invocations ''addColorStop'' (script ctx g) =
     [(g, [Num 0, Str ''red'']), (g, [Num 1, Str ''black''])]"
  by (simp add: invocations_def script_def script_rest_def)

lemma invocations_script_fillRect:
  "invocations ''fillRect'' (script ctx g) = [(ctx, [Num 5, Num 0, Num 15, Num 180])]"
  by (simp add: invocations_def script_def script_rest_def)


lemma assignments_script:
  "assignments (script ctx g) = [(ctx, ''fillStyle'', g)]"
  by (simp add: assignments_def script_def script_rest_def)

subsection \<open>The states a returning call goes through\<close>

lemma bind_js_Inr:
  assumes "bind_js m k s = (Inr v, s')"
  obtains u s1 where "m s = (Inr u, s1)" "k u s1 = (Inr v, s')"
  using assms by (auto simp: bind_js_def split: prod.splits sum.splits)

lemma call_method_Inr:
  assumes "call_method h t n args s = (Inr u, s1)"
  obtains a f where "t = Obj a" "method_of h (snd s) a n = Some f"
    "f args (snd s) = (Inr u, snd s1)"
  using assms by (cases t) (auto simp: call_method_def split: option.splits prod.splits)

lemma assign_prop_Inr:
  assumes "assign_prop h t n v s = (Inr u, s1)"
  obtains a where "t = Obj a" "put_prop h a n v (snd s) = (Inr u, snd s1)"
  using assms by (cases t) (auto simp: assign_prop_def split: prod.splits)

lemma run_returns_worlds:
  assumes ret: "result_of (run h ctx w) = Inr v"
  obtains a g u4 u5 w3 w4 f5 where "ctx = Obj a"
    "created_gradients (trace_of (run h ctx w)) = [g]"
    "put_prop h a ''fillStyle'' g w3 = (Inr u4, w4)"
    "method_of h w4 a ''fillRect'' = Some f5"
    "f5 [Num 5, Num 0, Num 15, Num 180] w4 = (Inr u5, world_of (run h ctx w))"
proof -
  obtain s' where rs: "color_gradient h ctx ([], w) = (Inr v, s')"
    using ret by (cases "color_gradient h ctx ([], w)") (auto simp: run_def result_of_def)
  from rs obtain g s1 where
    c1: "call_method h ctx ''createLinearGradient'' [Num 0, Num 0, Num 0, Num 180] ([], w) = (Inr g, s1)"
    and k1: "bind_js (call_method h g ''addColorStop'' [Num 0, Str ''red''])
       (\<lambda>_. bind_js (call_method h g ''addColorStop'' [Num 1, Str ''black''])
       (\<lambda>_. bind_js (assign_prop h ctx ''fillStyle'' g)
       (\<lambda>_. bind_js (call_method h ctx ''fillRect'' [Num 5, Num 0, Num 15, Num 180])
       (\<lambda>_. return_js ctx)))) s1 = (Inr v, s')"
    unfolding color_gradient_def by (rule bind_js_Inr)
  from k1 obtain u2 :: jsval and s2 where
    k2: "bind_js (call_method h g ''addColorStop'' [Num 1, Str ''black''])
       (\<lambda>_. bind_js (assign_prop h ctx ''fillStyle'' g)
       (\<lambda>_. bind_js (call_method h ctx ''fillRect'' [Num 5, Num 0, Num 15, Num 180])
       (\<lambda>_. return_js ctx))) s2 = (Inr v, s')"
    by (rule bind_js_Inr)
  from k2 obtain u3 :: jsval and s3 where
    k3: "bind_js (assign_prop h ctx ''fillStyle'' g)
       (\<lambda>_. bind_js (call_method h ctx ''fillRect'' [Num 5, Num 0, Num 15, Num 180])
       (\<lambda>_. return_js ctx)) s3 = (Inr v, s')"
    by (rule bind_js_Inr)
  from k3 obtain u4 s4 where
    c4: "assign_prop h ctx ''fillStyle'' g s3 = (Inr u4, s4)"
    and k4: "bind_js (call_method h ctx ''fillRect'' [Num 5, Num 0, Num 15, Num 180])
       (\<lambda>_. return_js ctx) s4 = (Inr v, s')"
    by (rule bind_js_Inr)
  from k4 obtain u5 s5 where
    c5: "call_method h ctx ''fillRect'' [Num 5, Num 0, Num 15, Num 180] s4 = (Inr u5, s5)"
    and k5: "return_js ctx s5 = (Inr v, s')"
    by (rule bind_js_Inr)
  from k5 have s5: "s5 = s'" by (simp add: return_js_def)
  from c4 obtain a where a: "ctx = Obj a"
    and put: "put_prop h a ''fillStyle'' g (snd s3) = (Inr u4, snd s4)"
    by (rule assign_prop_Inr)
  from c5 a obtain f5 where m5: "method_of h (snd s4) a ''fillRect'' = Some f5"
    and r5: "f5 [Num 5, Num 0, Num 15, Num 180] (snd s4) = (Inr u5, snd s5)"
    by (auto elim: call_method_Inr)
  from rs have wo: "world_of (run h ctx w) = snd s'" by (simp add: run_def world_of_def)
  from c1 have t1: "fst s1 = [(Invoke ctx ''createLinearGradient'' [Num 0, Num 0, Num 0, Num 180], Inr g)]"
    by (cases ctx) (auto simp: call_method_def split: option.splits prod.splits)
  obtain g' where g': "created_gradients (trace_of (run h ctx w)) = [g']"
    "events_of (run h ctx w) = script ctx g'"
    using ret by (rule run_returns)
  have "Assign ctx ''fillStyle'' g \<in> set (map fst (fst s4))"
    using c4 a by (auto simp: assign_prop_def split: prod.splits)
  moreover have "\<exists>tr. fst s' = fst s4 @ tr"
    using c5 s5 by (cases ctx) (auto simp: call_method_def split: option.splits prod.splits)
  ultimately have "Assign ctx ''fillStyle'' g \<in> set (events_of (run h ctx w))"
    using rs by (auto simp: events_of_def trace_of_def run_def)
  with g'(2) have "g' = g" by (auto simp: script_def script_rest_def)
  with g'(1) a put m5 r5 s5 wo that show ?thesis by simp
qed

subsection \<open>What no statement changes, the call does not change\<close>

lemma bind_js_keeps:
  assumes m: "\<And>s r s'. m s = (r, s') \<Longrightarrow> obs (snd s') = obs (snd s)"
    and k: "\<And>u s r s'. k u s = (r, s') \<Longrightarrow> obs (snd s') = obs (snd s)"
    and b: "bind_js m k s = (r, s')"
  shows "obs (snd s') = obs (snd s)"
proof -
  obtain r1 s1 where ms: "m s = (r1, s1)" by (cases "m s") auto
  show ?thesis
  proof (cases r1)
    case (Inl x)
    with ms b have "s' = s1" by (simp add: bind_js_def)
    with m[OF ms] show ?thesis by simp
  next
    case (Inr u)
    with ms b have "k u s1 = (r, s')" by (simp add: bind_js_def)
    from k[OF this] m[OF ms] show ?thesis by simp
  qed
qed

lemma run_keeps:
  assumes meth: "\<And>a n f args w0 out w1.
       n = ''createLinearGradient'' \<or> n = ''addColorStop'' \<or> n = ''fillRect'' \<Longrightarrow>
       method_of h w0 a n = Some f \<Longrightarrow> f args w0 = (out, w1) \<Longrightarrow> obs w1 = obs w0"
    and put: "\<And>a v w0 out w1. put_prop h a ''fillStyle'' v w0 = (out, w1) \<Longrightarrow> obs w1 = obs w0"
  shows "obs (world_of (run h ctx w)) = obs w"
proof -
  obtain r s' where rs: "color_gradient h ctx ([], w) = (r, s')"
    by (cases "color_gradient h ctx ([], w)") auto
  have cm: "obs (snd s') = obs (snd s)"
    if "n = ''createLinearGradient'' \<or> n = ''addColorStop'' \<or> n = ''fillRect''"
      and "call_method h t n args s = (r, s')" for t n args s r s'
    using that(2) meth[OF that(1)]
    by (cases t) (auto simp: call_method_def split: option.splits prod.splits)
  have ap: "obs (snd s') = obs (snd s)"
    if "assign_prop h t ''fillStyle'' v s = (r, s')" for t v s r s'
    using that put by (cases t) (auto simp: assign_prop_def split: prod.splits)
  have "obs (snd s') = obs (snd ([]::trace, w))"
    using rs unfolding color_gradient_def
    apply (rule bind_js_keeps[rotated 2])
     apply (erule cm[rotated], simp)
    apply (erule bind_js_keeps[rotated 2])
     apply (erule cm[rotated], simp)
    apply (erule bind_js_keeps[rotated 2])
     apply (erule cm[rotated], simp)
    apply (erule bind_js_keeps[rotated 2])
     apply (erule ap)
    apply (erule bind_js_keeps[rotated 2])
     apply (erule cm[rotated], simp)
    apply (simp add: return_js_def)
    done
  with rs show ?thesis by (simp add: run_def world_of_def)
qed

lemma run_butlast:
  assumes "(e, out) \<in> set (butlast (trace_of (run h ctx w)))"
  shows "\<exists>u. out = Inr u"
proof (cases rule: run_cases[of h ctx w])
  case no_method
  with assms show ?thesis by simp
next
  case (threw x)
  with assms show ?thesis by simp
next
  case (created g tr')
  with assms follows_butlast[OF created(2), of e out] show ?thesis
    by (auto split: if_splits)
qed

section \<open>A concrete run on the recording canvas\<close>

lemmas canvas_defs = run_def color_gradient_def bind_js_def return_js_def call_method_def
  assign_prop_def canvas_host_def canvas_method_def canvas_put_def canvas_accepts_def canvas0_def
  canvas_createLinearGradient_def canvas_addColorStop_def canvas_fillRect_def stops_of_def
  trace_of_def result_of_def world_of_def events_of_def

lemma canvas_run_trace:
  "trace_of (run (canvas_host Map.empty) (Obj 0) canvas0) =
    [(Invoke (Obj 0) ''createLinearGradient'' [Num 0, Num 0, Num 0, Num 180], Inr (Obj 1)),
     (Invoke (Obj 1) ''addColorStop'' [Num 0, Str ''red''], Inr Undefined),
     (Invoke (Obj 1) ''addColorStop'' [Num 1, Str ''black''], Inr Undefined),
     (Assign (Obj 0) ''fillStyle'' (Obj 1), Inr (Obj 1)),
     (Invoke (Obj 0) ''fillRect'' [Num 5, Num 0, Num 15, Num 180], Inr Undefined)]"
  by (simp add: canvas_defs)

lemma canvas_run_events:
  "events_of (run (canvas_host Map.empty) (Obj 0) canvas0) = script (Obj 0) (Obj 1)"
  by (simp add: events_of_def canvas_run_trace script_def script_rest_def)

lemma canvas_run_result:
  "result_of (run (canvas_host Map.empty) (Obj 0) canvas0) = Inr (Obj 0)"
  by (simp add: canvas_defs)

lemma canvas_method_keeps_props:
  assumes "method_of (canvas_host fs) w0 a n = Some f" "f args w0 = (out, w1)"
  shows "props w1 = props w0"
  using assms
  by (auto simp: canvas_host_def canvas_method_def canvas_createLinearGradient_def
        canvas_addColorStop_def canvas_fillRect_def split: if_splits option.splits)

lemma canvas_put_keeps_other_props:
  assumes "put_prop (canvas_host fs) a n v w0 = (out, w1)" "k \<noteq> n"
  shows "props w1 k = props w0 k"
  using assms
  by (auto simp: canvas_host_def canvas_put_def split: if_splits option.splits)

section \<open>The claims\<close>











text \<open>
  C5. For every input context, the value a call returns is the very reference it was
  given: object values are references, so equality of the returned value and the
  argument is reference identity.
\<close>

theorem returns_the_same_context:
  "result_of (run h ctx w) = Inr v \<Longrightarrow> v = ctx"
  by (erule run_returns)

theorem returns_the_same_context_witness:
  "\<exists>v. result_of (run (canvas_host Map.empty) (Obj 0) canvas0) = Inr v \<and> v = Obj 0"
proof -
  obtain v where v: "result_of (run (canvas_host Map.empty) (Obj 0) canvas0) = Inr v"
    by (simp add: canvas_run_result)
  from returns_the_same_context[OF v] have "v = Obj 0" .
  with v show ?thesis by blast
qed



text \<open>
  C6. Calling the function twice on the same context gives the same observable
  behaviour each time, with nothing accumulated across the calls. The function has no
  state of its own (the second call starts from the state of the host that the first
  left, and from nothing else); when both calls return, each has invoked
  \<^verbatim>\<open>createLinearGradient\<close> itself and used the gradient that its own invocation returned,
  registered exactly the stops (0, "red") and (1, "black") on it, and issued exactly one
  \<^verbatim>\<open>fillRect(5, 0, 15, 180)\<close>: the events of each call are the five of the script, in
  order.
\<close>

theorem two_calls_behave_the_same:
  assumes "result_of (fst (run_twice h ctx w)) = Inr v1"
    and "result_of (snd (run_twice h ctx w)) = Inr v2"
  shows "\<exists>g1 g2.
      created_gradients (trace_of (fst (run_twice h ctx w))) = [g1]
    \<and> created_gradients (trace_of (snd (run_twice h ctx w))) = [g2]
    \<and> events_of (fst (run_twice h ctx w)) = script ctx g1
    \<and> events_of (snd (run_twice h ctx w)) = script ctx g2
    \<and> invocations ''addColorStop'' (events_of (fst (run_twice h ctx w))) =
         [(g1, [Num 0, Str ''red'']), (g1, [Num 1, Str ''black''])]
    \<and> invocations ''addColorStop'' (events_of (snd (run_twice h ctx w))) =
         [(g2, [Num 0, Str ''red'']), (g2, [Num 1, Str ''black''])]
    \<and> invocations ''fillRect'' (events_of (fst (run_twice h ctx w))) =
         [(ctx, [Num 5, Num 0, Num 15, Num 180])]
    \<and> invocations ''fillRect'' (events_of (snd (run_twice h ctx w))) =
         [(ctx, [Num 5, Num 0, Num 15, Num 180])]
    \<and> v1 = ctx \<and> v2 = ctx"
proof -
  from assms(1) have "result_of (run h ctx w) = Inr v1" by (simp add: run_twice_def)
  then obtain g1 where g1: "events_of (run h ctx w) = script ctx g1"
    "created_gradients (trace_of (run h ctx w)) = [g1]" "v1 = ctx"
    by (rule run_returns)
  from assms(2) have "result_of (run h ctx (world_of (run h ctx w))) = Inr v2"
    by (simp add: run_twice_def)
  then obtain g2 where g2: "events_of (run h ctx (world_of (run h ctx w))) = script ctx g2"
    "created_gradients (trace_of (run h ctx (world_of (run h ctx w)))) = [g2]" "v2 = ctx"
    by (rule run_returns)
  from g1 g2 show ?thesis
    by (simp add: run_twice_def invocations_script_addColorStop invocations_script_fillRect)
qed

theorem two_calls_behave_the_same_witness:
  "result_of (fst (run_twice (canvas_host Map.empty) (Obj 0) canvas0)) = Inr (Obj 0)
   \<and> result_of (snd (run_twice (canvas_host Map.empty) (Obj 0) canvas0)) = Inr (Obj 0)
   \<and> events_of (fst (run_twice (canvas_host Map.empty) (Obj 0) canvas0)) = script (Obj 0) (Obj 1)
   \<and> events_of (snd (run_twice (canvas_host Map.empty) (Obj 0) canvas0)) = script (Obj 0) (Obj 2)
   \<and> map_option stops
        (gradients (world_of (snd (run_twice (canvas_host Map.empty) (Obj 0) canvas0))) 1)
       = Some [[Num 0, Str ''red''], [Num 1, Str ''black'']]
   \<and> map_option stops
        (gradients (world_of (snd (run_twice (canvas_host Map.empty) (Obj 0) canvas0))) 2)
       = Some [[Num 0, Str ''red''], [Num 1, Str ''black'']]
   \<and> map (fst) (painted (world_of (snd (run_twice (canvas_host Map.empty) (Obj 0) canvas0))))
       = [[Num 5, Num 0, Num 15, Num 180], [Num 5, Num 0, Num 15, Num 180]]"
proof -
  have r1: "result_of (fst (run_twice (canvas_host Map.empty) (Obj 0) canvas0)) = Inr (Obj 0)"
    by (simp add: run_twice_def canvas_defs)
  have r2: "result_of (snd (run_twice (canvas_host Map.empty) (Obj 0) canvas0)) = Inr (Obj 0)"
    by (simp add: run_twice_def canvas_defs)
  have c1: "created_gradients (trace_of (fst (run_twice (canvas_host Map.empty) (Obj 0) canvas0)))
      = [Obj 1]"
    by (simp add: run_twice_def created_gradients_def canvas_defs)
  have c2: "created_gradients (trace_of (snd (run_twice (canvas_host Map.empty) (Obj 0) canvas0)))
      = [Obj 2]"
    by (simp add: run_twice_def created_gradients_def canvas_defs)
  have w1: "map_option stops
        (gradients (world_of (snd (run_twice (canvas_host Map.empty) (Obj 0) canvas0))) 1)
       = Some [[Num 0, Str ''red''], [Num 1, Str ''black'']]"
    by (simp add: run_twice_def canvas_defs)
  have w2: "map_option stops
        (gradients (world_of (snd (run_twice (canvas_host Map.empty) (Obj 0) canvas0))) 2)
       = Some [[Num 0, Str ''red''], [Num 1, Str ''black'']]"
    by (simp add: run_twice_def canvas_defs)
  have p: "map (fst) (painted (world_of (snd (run_twice (canvas_host Map.empty) (Obj 0) canvas0))))
       = [[Num 5, Num 0, Num 15, Num 180], [Num 5, Num 0, Num 15, Num 180]]"
    by (simp add: run_twice_def canvas_defs)
  from two_calls_behave_the_same[OF r1 r2] c1 c2 r1 r2 w1 w2 p show ?thesis
    by auto
qed

text \<open>
  C7. After a call has returned, the fill style of the context is still the gradient
  that the call assigned: nothing is restored. A call that returns has performed exactly
  one assignment, of the created gradient \<open>g\<close> to \<^verbatim>\<open>fillStyle\<close> of the context, and its
  last action on the host is the \<^verbatim>\<open>fillRect\<close> invocation, so no later statement resets the
  property. And on every host where assigning this gradient \<open>g\<close> to \<^verbatim>\<open>fillStyle\<close> makes it
  what \<open>fill_style_of\<close> reads, and \<^verbatim>\<open>fillRect\<close> leaves that alone, the state in which the
  call returns has \<open>g\<close> as fill style. Nothing is asked of the setter for any other
  value: a context may ignore what it cannot use as a paint.
\<close>

theorem fill_style_stays_set:
  assumes ret: "result_of (run h ctx w) = Inr v"
  shows "\<exists>g. created_gradients (trace_of (run h ctx w)) = [g]
    \<and> assignments (events_of (run h ctx w)) = [(ctx, ''fillStyle'', g)]
    \<and> last (events_of (run h ctx w)) = Invoke ctx ''fillRect'' [Num 5, Num 0, Num 15, Num 180]
    \<and> ((\<forall>a w0 u w1. ctx = Obj a \<longrightarrow>
            put_prop h a ''fillStyle'' g w0 = (Inr u, w1) \<longrightarrow> fill_style_of w1 = g)
        \<and> (\<forall>a f args w0 out w1. ctx = Obj a \<longrightarrow>
            method_of h w0 a ''fillRect'' = Some f \<longrightarrow> f args w0 = (out, w1) \<longrightarrow>
            fill_style_of w1 = fill_style_of w0)
        \<longrightarrow> fill_style_of (world_of (run h ctx w)) = g)"
proof -
  from ret obtain a g u4 u5 w3 w4 f5 where a: "ctx = Obj a"
    and g: "created_gradients (trace_of (run h ctx w)) = [g]"
    and put: "put_prop h a ''fillStyle'' g w3 = (Inr u4, w4)"
    and m5: "method_of h w4 a ''fillRect'' = Some f5"
    and r5: "f5 [Num 5, Num 0, Num 15, Num 180] w4 = (Inr u5, world_of (run h ctx w))"
    by (rule run_returns_worlds)
  from ret obtain g' where g': "events_of (run h ctx w) = script ctx g'"
    "created_gradients (trace_of (run h ctx w)) = [g']"
    by (rule run_returns)
  from g g'(2) have same: "g' = g" by simp
  have asg: "assignments (events_of (run h ctx w)) = [(ctx, ''fillStyle'', g)]"
    using g'(1) same by (simp add: assignments_script)
  have lst: "last (events_of (run h ctx w))
      = Invoke ctx ''fillRect'' [Num 5, Num 0, Num 15, Num 180]"
    using g'(1) by (simp add: script_def script_rest_def)
  have fs: "(\<forall>a w0 u w1. ctx = Obj a \<longrightarrow>
            put_prop h a ''fillStyle'' g w0 = (Inr u, w1) \<longrightarrow> fill_style_of w1 = g)
        \<and> (\<forall>a f args w0 out w1. ctx = Obj a \<longrightarrow>
            method_of h w0 a ''fillRect'' = Some f \<longrightarrow> f args w0 = (out, w1) \<longrightarrow>
            fill_style_of w1 = fill_style_of w0)
        \<longrightarrow> fill_style_of (world_of (run h ctx w)) = g"
  proof
    assume laws: "(\<forall>a w0 u w1. ctx = Obj a \<longrightarrow>
            put_prop h a ''fillStyle'' g w0 = (Inr u, w1) \<longrightarrow> fill_style_of w1 = g)
        \<and> (\<forall>a f args w0 out w1. ctx = Obj a \<longrightarrow>
            method_of h w0 a ''fillRect'' = Some f \<longrightarrow> f args w0 = (out, w1) \<longrightarrow>
            fill_style_of w1 = fill_style_of w0)"
    note law_set = laws[THEN conjunct1, rule_format]
    note law_keep = laws[THEN conjunct2, rule_format]
    from law_set[OF a put] have "fill_style_of w4 = g" .
    with law_keep[OF a m5 r5] show "fill_style_of (world_of (run h ctx w)) = g" by simp
  qed
  from g asg lst fs show ?thesis by (intro exI[of _ g] conjI)
qed

theorem fill_style_stays_set_witness:
  "result_of (run (canvas_host Map.empty) (Obj 0) canvas0) = Inr (Obj 0)
   \<and> props canvas0 ''fillStyle'' = Some (Str ''#000000'')
   \<and> props (snd (put_prop (canvas_host Map.empty) 0 ''fillStyle'' (Num 5) canvas0)) ''fillStyle''
       = Some (Str ''#000000'')
   \<and> assignments (events_of (run (canvas_host Map.empty) (Obj 0) canvas0))
       = [(Obj 0, ''fillStyle'', Obj 1)]
   \<and> props (world_of (run (canvas_host Map.empty) (Obj 0) canvas0)) ''fillStyle'' = Some (Obj 1)"
proof -
  from fill_style_stays_set[of "canvas_host Map.empty" "Obj 0" canvas0 "Obj 0"
      "\<lambda>w. the (props w ''fillStyle'')", OF canvas_run_result]
  obtain g where g: "created_gradients (trace_of (run (canvas_host Map.empty) (Obj 0) canvas0)) = [g]"
    and asg: "assignments (events_of (run (canvas_host Map.empty) (Obj 0) canvas0))
       = [(Obj 0, ''fillStyle'', g)]"
    and imp: "(\<forall>a w0 u w1. Obj 0 = Obj a \<longrightarrow>
            put_prop (canvas_host Map.empty) a ''fillStyle'' g w0 = (Inr u, w1) \<longrightarrow>
            the (props w1 ''fillStyle'') = g)
        \<and> (\<forall>a f args w0 out w1. Obj 0 = Obj a \<longrightarrow>
            method_of (canvas_host Map.empty) w0 a ''fillRect'' = Some f \<longrightarrow>
            f args w0 = (out, w1) \<longrightarrow>
            the (props w1 ''fillStyle'') = the (props w0 ''fillStyle''))
        \<longrightarrow> the (props (world_of (run (canvas_host Map.empty) (Obj 0) canvas0)) ''fillStyle'') = g"
    by (elim exE conjE)
  from g have g1: "g = Obj 1" by (simp add: canvas_run_trace created_gradients_def)
  have l1: "\<forall>a w0 u w1. Obj 0 = Obj a \<longrightarrow>
      put_prop (canvas_host Map.empty) a ''fillStyle'' g w0 = (Inr u, w1) \<longrightarrow>
      the (props w1 ''fillStyle'') = g"
    unfolding g1 by (auto simp: canvas_host_def canvas_put_def canvas_accepts_def)
  have l2: "\<forall>a f args w0 out w1. Obj 0 = Obj a \<longrightarrow>
      method_of (canvas_host Map.empty) w0 a ''fillRect'' = Some f \<longrightarrow> f args w0 = (out, w1) \<longrightarrow>
      the (props w1 ''fillStyle'') = the (props w0 ''fillStyle'')"
    by (auto simp: canvas_host_def canvas_method_def canvas_fillRect_def)
  from imp[THEN mp, OF conjI, OF l1 l2]
  have fin: "the (props (world_of (run (canvas_host Map.empty) (Obj 0) canvas0)) ''fillStyle'') = Obj 1"
    unfolding g1 .
  have nn: "props (world_of (run (canvas_host Map.empty) (Obj 0) canvas0)) ''fillStyle'' \<noteq> None"
    by (simp add: canvas_defs)
  from fin nn
  have c5: "props (world_of (run (canvas_host Map.empty) (Obj 0) canvas0)) ''fillStyle'' = Some (Obj 1)"
    by (cases "props (world_of (run (canvas_host Map.empty) (Obj 0) canvas0)) ''fillStyle''") simp_all
  have c2: "props canvas0 ''fillStyle'' = Some (Str ''#000000'')"
    by (simp add: canvas0_def)
  have c3: "props (snd (put_prop (canvas_host Map.empty) 0 ''fillStyle'' (Num 5) canvas0)) ''fillStyle''
       = Some (Str ''#000000'')"
    by (simp add: canvas_host_def canvas_put_def canvas_accepts_def canvas0_def)
  from asg have c4: "assignments (events_of (run (canvas_host Map.empty) (Obj 0) canvas0))
       = [(Obj 0, ''fillStyle'', Obj 1)]"
    unfolding g1 .
  from canvas_run_result c2 c3 c4 c5 show ?thesis by (intro conjI)
qed

text \<open>
  C8. The function validates nothing and has no failure of its own; every exception
  comes from below and reaches the caller as it is. For every input and every host:
  whatever the host throws in one of the operations the function invokes (gradient
  creation, a colour-stop registration, the fill-style assignment, \<^verbatim>\<open>fillRect\<close>) is the
  result of the call, unchanged; every operation before the last one of the trace has
  returned normally, so nothing is caught and the call stops at the first exception; and
  a call that ends with an exception \<open>x\<close> either got \<open>x\<close> from the last operation it
  invoked, or \<open>x\<close> is the \<^verbatim>\<open>TypeError\<close> of the runtime for the next statement of the script,
  whose receiver is not an object or whose member is not callable in the state reached.
\<close>

theorem exceptions_propagate_unchanged:
  "(\<forall>e x. (e, Inl x) \<in> set (trace_of (run h ctx w)) \<longrightarrow> result_of (run h ctx w) = Inl x)
   \<and> (\<forall>e out. (e, out) \<in> set (butlast (trace_of (run h ctx w))) \<longrightarrow> (\<exists>u. out = Inr u))
   \<and> (\<forall>x. result_of (run h ctx w) = Inl x \<longrightarrow>
         (trace_of (run h ctx w) \<noteq> [] \<and> snd (last (trace_of (run h ctx w))) = Inl x)
       \<or> (x = TypeError \<and>
            (\<exists>g. prefix (events_of (run h ctx w)) (script ctx g)
               \<and> set (created_gradients (trace_of (run h ctx w))) \<subseteq> {g}
               \<and> length (events_of (run h ctx w)) < length (script ctx g)
               \<and> \<not> can_do h (world_of (run h ctx w))
                     (script ctx g ! length (events_of (run h ctx w))))))"
proof (intro conjI allI impI)
  fix e x
  assume m: "(e, Inl x) \<in> set (trace_of (run h ctx w))"
  show "result_of (run h ctx w) = Inl x"
  proof (cases rule: run_cases[of h ctx w])
    case no_method
    with m show ?thesis by simp
  next
    case (threw y)
    with m show ?thesis by simp
  next
    case (created g tr')
    with m have "(e, Inl x) \<in> set tr'" by auto
    from follows_propagates[OF created(2) this] show ?thesis .
  qed
next
  fix e out
  assume "(e, out) \<in> set (butlast (trace_of (run h ctx w)))"
  then show "\<exists>u. out = Inr u" by (rule run_butlast)
next
  fix x
  assume r: "result_of (run h ctx w) = Inl x"
  show "(trace_of (run h ctx w) \<noteq> [] \<and> snd (last (trace_of (run h ctx w))) = Inl x)
       \<or> (x = TypeError \<and>
            (\<exists>g. prefix (events_of (run h ctx w)) (script ctx g)
               \<and> set (created_gradients (trace_of (run h ctx w))) \<subseteq> {g}
               \<and> length (events_of (run h ctx w)) < length (script ctx g)
               \<and> \<not> can_do h (world_of (run h ctx w))
                     (script ctx g ! length (events_of (run h ctx w)))))"
  proof (cases rule: run_cases[of h ctx w])
    case no_method
    with r have "x = TypeError" by simp
    moreover from no_method
    have "prefix (events_of (run h ctx w)) (script ctx Undefined)
        \<and> set (created_gradients (trace_of (run h ctx w))) \<subseteq> {Undefined}
        \<and> length (events_of (run h ctx w)) < length (script ctx Undefined)
        \<and> \<not> can_do h (world_of (run h ctx w))
              (script ctx Undefined ! length (events_of (run h ctx w)))"
      by (simp add: events_of_def created_gradients_def script_def)
    ultimately show ?thesis by blast
  next
    case (threw y)
    with r show ?thesis by simp
  next
    case (created g tr')
    from created(2) r
    have f: "follows h (world_of (run h ctx w)) (script_rest ctx g) ctx tr' (Inl x)" by simp
    from follows_prefix[OF f] have p: "prefix (map fst tr') (script_rest ctx g)" .
    then obtain zs where zs: "script_rest ctx g = map fst tr' @ zs" by (auto simp: prefix_def)
    have cg: "created_gradients tr' = []"
      using zs
      by (auto simp: script_rest_def created_gradients_def append_eq_Cons_conv
            map_eq_Cons_conv Cons_eq_append_conv created_other)
    from follows_error_origin[OF f]
    show ?thesis
    proof
      assume "tr' \<noteq> [] \<and> snd (last tr') = Inl x"
      with created(1) show ?thesis by simp
    next
      assume t: "x = TypeError \<and> length tr' < length (script_rest ctx g)
          \<and> \<not> can_do h (world_of (run h ctx w)) (script_rest ctx g ! length tr')"
      with created(1) p cg
      have "prefix (events_of (run h ctx w)) (script ctx g)
        \<and> set (created_gradients (trace_of (run h ctx w))) \<subseteq> {g}
        \<and> length (events_of (run h ctx w)) < length (script ctx g)
        \<and> \<not> can_do h (world_of (run h ctx w))
              (script ctx g ! length (events_of (run h ctx w)))"
        by (simp add: events_of_def created_gradients_def script_def)
      with t show ?thesis by blast
    qed
  qed
qed

theorem exceptions_propagate_unchanged_witness:
  "(Invoke (Obj 0) ''createLinearGradient'' [Num 0, Num 0, Num 0, Num 180], Inl (Thrown (Str ''a'')))
       \<in> set (trace_of (run (canvas_host [''createLinearGradient'' \<mapsto> Thrown (Str ''a'')]) (Obj 0) canvas0))
   \<and> result_of (run (canvas_host [''createLinearGradient'' \<mapsto> Thrown (Str ''a'')]) (Obj 0) canvas0)
       = Inl (Thrown (Str ''a''))
   \<and> (Invoke (Obj 1) ''addColorStop'' [Num 0, Str ''red''], Inl (Thrown (Str ''b'')))
       \<in> set (trace_of (run (canvas_host [''addColorStop'' \<mapsto> Thrown (Str ''b'')]) (Obj 0) canvas0))
   \<and> result_of (run (canvas_host [''addColorStop'' \<mapsto> Thrown (Str ''b'')]) (Obj 0) canvas0)
       = Inl (Thrown (Str ''b''))
   \<and> (Assign (Obj 0) ''fillStyle'' (Obj 1), Inl (Thrown (Str ''c'')))
       \<in> set (trace_of (run (canvas_host [''fillStyle'' \<mapsto> Thrown (Str ''c'')]) (Obj 0) canvas0))
   \<and> result_of (run (canvas_host [''fillStyle'' \<mapsto> Thrown (Str ''c'')]) (Obj 0) canvas0)
       = Inl (Thrown (Str ''c''))
   \<and> (Invoke (Obj 0) ''fillRect'' [Num 5, Num 0, Num 15, Num 180], Inl (Thrown (Str ''d'')))
       \<in> set (trace_of (run (canvas_host [''fillRect'' \<mapsto> Thrown (Str ''d'')]) (Obj 0) canvas0))
   \<and> result_of (run (canvas_host [''fillRect'' \<mapsto> Thrown (Str ''d'')]) (Obj 0) canvas0)
       = Inl (Thrown (Str ''d''))
   \<and> result_of (run (canvas_host Map.empty) Null canvas0) = Inl TypeError
   \<and> trace_of (run (canvas_host Map.empty) Null canvas0) = []
   \<and> \<not> can_do (canvas_host Map.empty) (world_of (run (canvas_host Map.empty) Null canvas0))
         (Invoke Null ''createLinearGradient'' [Num 0, Num 0, Num 0, Num 180])"
proof -
  have a: "(Invoke (Obj 0) ''createLinearGradient'' [Num 0, Num 0, Num 0, Num 180], Inl (Thrown (Str ''a'')))
       \<in> set (trace_of (run (canvas_host [''createLinearGradient'' \<mapsto> Thrown (Str ''a'')]) (Obj 0) canvas0))"
    by (simp add: canvas_defs)
  have b: "(Invoke (Obj 1) ''addColorStop'' [Num 0, Str ''red''], Inl (Thrown (Str ''b'')))
       \<in> set (trace_of (run (canvas_host [''addColorStop'' \<mapsto> Thrown (Str ''b'')]) (Obj 0) canvas0))"
    by (simp add: canvas_defs)
  have c: "(Assign (Obj 0) ''fillStyle'' (Obj 1), Inl (Thrown (Str ''c'')))
       \<in> set (trace_of (run (canvas_host [''fillStyle'' \<mapsto> Thrown (Str ''c'')]) (Obj 0) canvas0))"
    by (simp add: canvas_defs)
  have d: "(Invoke (Obj 0) ''fillRect'' [Num 5, Num 0, Num 15, Num 180], Inl (Thrown (Str ''d'')))
       \<in> set (trace_of (run (canvas_host [''fillRect'' \<mapsto> Thrown (Str ''d'')]) (Obj 0) canvas0))"
    by (simp add: canvas_defs)
  have n: "result_of (run (canvas_host Map.empty) Null canvas0) = Inl TypeError"
    "trace_of (run (canvas_host Map.empty) Null canvas0) = []"
    by (simp_all add: canvas_defs)
  have "\<not> can_do (canvas_host Map.empty) (world_of (run (canvas_host Map.empty) Null canvas0))
         (script Null Undefined ! 0)"
    using exceptions_propagate_unchanged[of "canvas_host Map.empty" Null canvas0] n
    by (auto simp: events_of_def script_def)
  then have nn: "\<not> can_do (canvas_host Map.empty) (world_of (run (canvas_host Map.empty) Null canvas0))
         (Invoke Null ''createLinearGradient'' [Num 0, Num 0, Num 0, Num 180])"
    by (simp add: script_def)
  from a b c d n nn
    exceptions_propagate_unchanged[of "canvas_host [''createLinearGradient'' \<mapsto> Thrown (Str ''a'')]" "Obj 0" canvas0]
    exceptions_propagate_unchanged[of "canvas_host [''addColorStop'' \<mapsto> Thrown (Str ''b'')]" "Obj 0" canvas0]
    exceptions_propagate_unchanged[of "canvas_host [''fillStyle'' \<mapsto> Thrown (Str ''c'')]" "Obj 0" canvas0]
    exceptions_propagate_unchanged[of "canvas_host [''fillRect'' \<mapsto> Thrown (Str ''d'')]" "Obj 0" canvas0]
  show ?thesis by blast
qed


text \<open>
  C9. In every call both colour-stop registrations have completed before the gradient
  is assigned to the fill-style property, and so before \<^verbatim>\<open>fillRect\<close> is invoked. Whenever
  the assignment of some \<open>g\<close> to \<^verbatim>\<open>fillStyle\<close> of the context occurs in the trace of a
  call (as it does in every call that returns), \<open>g\<close> is the gradient created in the call,
  the events before the assignment contain exactly the two registrations (0, "red") and
  (1, "black") on \<open>g\<close>, every operation before the assignment has returned normally, and
  no \<^verbatim>\<open>fillRect\<close> has been invoked yet.
\<close>

theorem color_stops_complete_before_assignment:
  "((\<exists>v. result_of (run h ctx w) = Inr v) \<longrightarrow>
      (\<exists>g. Assign ctx ''fillStyle'' g \<in> set (events_of (run h ctx w))))
   \<and> (\<forall>g. Assign ctx ''fillStyle'' g \<in> set (events_of (run h ctx w)) \<longrightarrow>
        created_gradients (trace_of (run h ctx w)) = [g]
      \<and> invocations ''addColorStop'' (before (Assign ctx ''fillStyle'' g) (events_of (run h ctx w)))
          = [(g, [Num 0, Str ''red'']), (g, [Num 1, Str ''black''])]
      \<and> invocations ''fillRect'' (before (Assign ctx ''fillStyle'' g) (events_of (run h ctx w))) = []
      \<and> (\<forall>i < length (before (Assign ctx ''fillStyle'' g) (events_of (run h ctx w))).
            \<exists>u. snd (trace_of (run h ctx w) ! i) = Inr u))"
proof (rule conjI, rule impI, goal_cases)
  case 1
  then obtain v where "result_of (run h ctx w) = Inr v" ..
  then obtain g where "events_of (run h ctx w) = script ctx g" by (rule run_returns)
  then have "Assign ctx ''fillStyle'' g \<in> set (events_of (run h ctx w))"
    by (simp add: script_def script_rest_def)
  then show ?case ..
next
  case 2
  show ?case
  proof (intro allI impI)
  fix g
  assume asg: "Assign ctx ''fillStyle'' g \<in> set (events_of (run h ctx w))"
  obtain g' where p: "prefix (events_of (run h ctx w)) (script ctx g')"
    and c: "length (trace_of (run h ctx w)) \<le> 1
        \<or> created_gradients (trace_of (run h ctx w)) = [g']"
    by (rule run_prefix)
  from p asg have same: "g' = g"
    by (auto simp: script_def script_rest_def prefix_Cons)
  from p asg have shape: "events_of (run h ctx w) = take 4 (script ctx g)
      \<or> events_of (run h ctx w) = script ctx g"
    unfolding same by (auto simp: script_def script_rest_def prefix_Cons)
  then have bef: "before (Assign ctx ''fillStyle'' g) (events_of (run h ctx w)) = take 3 (script ctx g)"
    by (auto simp: before_def script_def script_rest_def)
  from shape have len: "4 \<le> length (trace_of (run h ctx w))"
    using length_map[of fst "trace_of (run h ctx w)"]
    by (auto simp: events_of_def script_def script_rest_def)
  with c same have f1: "created_gradients (trace_of (run h ctx w)) = [g]" by simp
  have f2: "invocations ''addColorStop'' (before (Assign ctx ''fillStyle'' g) (events_of (run h ctx w)))
          = [(g, [Num 0, Str ''red'']), (g, [Num 1, Str ''black''])]"
    unfolding bef by (simp add: invocations_def script_def script_rest_def)
  have f3: "invocations ''fillRect'' (before (Assign ctx ''fillStyle'' g) (events_of (run h ctx w))) = []"
    unfolding bef by (simp add: invocations_def script_def script_rest_def)
  have f4: "\<forall>i < length (before (Assign ctx ''fillStyle'' g) (events_of (run h ctx w))).
            \<exists>u. snd (trace_of (run h ctx w) ! i) = Inr u"
  proof (intro allI impI)
    fix i
    assume "i < length (before (Assign ctx ''fillStyle'' g) (events_of (run h ctx w)))"
    with bef have i: "i < 3" by (simp add: script_def script_rest_def)
    with len have il: "i < length (butlast (trace_of (run h ctx w)))" by simp
    then have "butlast (trace_of (run h ctx w)) ! i \<in> set (butlast (trace_of (run h ctx w)))"
      by (rule nth_mem)
    with il have "trace_of (run h ctx w) ! i \<in> set (butlast (trace_of (run h ctx w)))"
      by (simp add: nth_butlast)
    then have "(fst (trace_of (run h ctx w) ! i), snd (trace_of (run h ctx w) ! i))
        \<in> set (butlast (trace_of (run h ctx w)))" by simp
    then show "\<exists>u. snd (trace_of (run h ctx w) ! i) = Inr u" by (rule run_butlast)
  qed
  from f1 f2 f3 f4
  show "created_gradients (trace_of (run h ctx w)) = [g]
      \<and> invocations ''addColorStop'' (before (Assign ctx ''fillStyle'' g) (events_of (run h ctx w)))
          = [(g, [Num 0, Str ''red'']), (g, [Num 1, Str ''black''])]
      \<and> invocations ''fillRect'' (before (Assign ctx ''fillStyle'' g) (events_of (run h ctx w))) = []
      \<and> (\<forall>i < length (before (Assign ctx ''fillStyle'' g) (events_of (run h ctx w))).
            \<exists>u. snd (trace_of (run h ctx w) ! i) = Inr u)"
    by (intro conjI)
  qed
qed

theorem color_stops_complete_before_assignment_witness:
  "Assign (Obj 0) ''fillStyle'' (Obj 1)
      \<in> set (events_of (run (canvas_host Map.empty) (Obj 0) canvas0))
   \<and> invocations ''addColorStop''
        (before (Assign (Obj 0) ''fillStyle'' (Obj 1))
           (events_of (run (canvas_host Map.empty) (Obj 0) canvas0)))
      = [(Obj 1, [Num 0, Str ''red'']), (Obj 1, [Num 1, Str ''black''])]
   \<and> painted (world_of (run (canvas_host Map.empty) (Obj 0) canvas0))
      = [([Num 5, Num 0, Num 15, Num 180], Some (Obj 1),
          [[Num 0, Str ''red''], [Num 1, Str ''black'']])]"
proof -
  have asg: "Assign (Obj 0) ''fillStyle'' (Obj 1)
      \<in> set (events_of (run (canvas_host Map.empty) (Obj 0) canvas0))"
    by (simp add: canvas_run_events script_def script_rest_def)
  have "painted (world_of (run (canvas_host Map.empty) (Obj 0) canvas0))
      = [([Num 5, Num 0, Num 15, Num 180], Some (Obj 1),
          [[Num 0, Str ''red''], [Num 1, Str ''black'']])]"
    by (simp add: canvas_defs)
  with asg color_stops_complete_before_assignment[of "canvas_host Map.empty" "Obj 0" canvas0]
  show ?thesis by blast
qed

text \<open>
  C10. The function touches the context only through \<^verbatim>\<open>createLinearGradient\<close>, the
  assignment to \<^verbatim>\<open>fillStyle\<close> and one \<^verbatim>\<open>fillRect\<close> call. In every call, for the gradient \<open>g\<close>
  created in it: each event is one of these three on the context or one of the two
  \<^verbatim>\<open>addColorStop\<close> invocations on \<open>g\<close>; the only property ever assigned is \<^verbatim>\<open>fillStyle\<close> of
  the context; the methods invoked on the context (when the gradient is another object)
  are \<^verbatim>\<open>createLinearGradient\<close> and then \<^verbatim>\<open>fillRect\<close>, at most once each. And whatever can be
  observed of the host that none of the operations used changes (the other properties of
  the context) is the same after the call as before, whether the call returns or throws.
\<close>

theorem touches_context_only_through_three_operations:
  "(\<exists>g. set (created_gradients (trace_of (run h ctx w))) \<subseteq> {g}
      \<and> (\<forall>e \<in> set (events_of (run h ctx w)).
            e = Invoke ctx ''createLinearGradient'' [Num 0, Num 0, Num 0, Num 180]
          \<or> e = Invoke g ''addColorStop'' [Num 0, Str ''red'']
          \<or> e = Invoke g ''addColorStop'' [Num 1, Str ''black'']
          \<or> e = Assign ctx ''fillStyle'' g
          \<or> e = Invoke ctx ''fillRect'' [Num 5, Num 0, Num 15, Num 180])
      \<and> prefix (assignments (events_of (run h ctx w))) [(ctx, ''fillStyle'', g)]
      \<and> (g \<noteq> ctx \<longrightarrow>
           prefix (methods_on ctx (events_of (run h ctx w))) [''createLinearGradient'', ''fillRect'']))
   \<and> ((\<forall>a n f args w0 out w1.
          (n = ''createLinearGradient'' \<or> n = ''addColorStop'' \<or> n = ''fillRect'') \<longrightarrow>
          method_of h w0 a n = Some f \<longrightarrow> f args w0 = (out, w1) \<longrightarrow> obs w1 = obs w0)
       \<and> (\<forall>a v w0 out w1. put_prop h a ''fillStyle'' v w0 = (out, w1) \<longrightarrow> obs w1 = obs w0)
       \<longrightarrow> obs (world_of (run h ctx w)) = obs w)"
proof
  obtain g where p: "prefix (events_of (run h ctx w)) (script ctx g)"
    and c: "set (created_gradients (trace_of (run h ctx w))) \<subseteq> {g}"
    by (rule run_prefix)
  from p obtain zs where zs: "script ctx g = events_of (run h ctx w) @ zs"
    by (auto simp: prefix_def)
  have "set (script ctx g) = set (events_of (run h ctx w)) \<union> set zs"
    unfolding zs by simp
  then have sub: "set (events_of (run h ctx w)) \<subseteq> set (script ctx g)"
    by simp
  have ev: "\<forall>e \<in> set (events_of (run h ctx w)).
            e = Invoke ctx ''createLinearGradient'' [Num 0, Num 0, Num 0, Num 180]
          \<or> e = Invoke g ''addColorStop'' [Num 0, Str ''red'']
          \<or> e = Invoke g ''addColorStop'' [Num 1, Str ''black'']
          \<or> e = Assign ctx ''fillStyle'' g
          \<or> e = Invoke ctx ''fillRect'' [Num 5, Num 0, Num 15, Num 180]"
  proof
    fix e
    assume "e \<in> set (events_of (run h ctx w))"
    with sub have "e \<in> set (script ctx g)" ..
    then show "e = Invoke ctx ''createLinearGradient'' [Num 0, Num 0, Num 0, Num 180]
          \<or> e = Invoke g ''addColorStop'' [Num 0, Str ''red'']
          \<or> e = Invoke g ''addColorStop'' [Num 1, Str ''black'']
          \<or> e = Assign ctx ''fillStyle'' g
          \<or> e = Invoke ctx ''fillRect'' [Num 5, Num 0, Num 15, Num 180]"
      by (simp add: script_def script_rest_def)
  qed
  from assignments_prefix[OF p]
  have asg: "prefix (assignments (events_of (run h ctx w))) [(ctx, ''fillStyle'', g)]"
    by (simp only: assignments_script)
  have meth: "prefix (methods_on ctx (events_of (run h ctx w))) [''createLinearGradient'', ''fillRect'']"
    if "g \<noteq> ctx"
  proof -
    have "methods_on ctx (script ctx g) = [''createLinearGradient'', ''fillRect'']"
      using that by (simp add: methods_on_def script_def script_rest_def)
    moreover have "methods_on ctx (script ctx g)
        = methods_on ctx (events_of (run h ctx w)) @ methods_on ctx zs"
      unfolding zs by (simp add: methods_on_def)
    ultimately have "[''createLinearGradient'', ''fillRect'']
        = methods_on ctx (events_of (run h ctx w)) @ methods_on ctx zs" by simp
    then show ?thesis by (rule prefixI)
  qed
  from meth have meth': "g \<noteq> ctx \<longrightarrow>
      prefix (methods_on ctx (events_of (run h ctx w))) [''createLinearGradient'', ''fillRect'']"
    by (rule impI)
  from c ev asg meth'
  show "\<exists>g. set (created_gradients (trace_of (run h ctx w))) \<subseteq> {g}
      \<and> (\<forall>e \<in> set (events_of (run h ctx w)).
            e = Invoke ctx ''createLinearGradient'' [Num 0, Num 0, Num 0, Num 180]
          \<or> e = Invoke g ''addColorStop'' [Num 0, Str ''red'']
          \<or> e = Invoke g ''addColorStop'' [Num 1, Str ''black'']
          \<or> e = Assign ctx ''fillStyle'' g
          \<or> e = Invoke ctx ''fillRect'' [Num 5, Num 0, Num 15, Num 180])
      \<and> prefix (assignments (events_of (run h ctx w))) [(ctx, ''fillStyle'', g)]
      \<and> (g \<noteq> ctx \<longrightarrow>
           prefix (methods_on ctx (events_of (run h ctx w))) [''createLinearGradient'', ''fillRect''])"
    by (intro exI[of _ g] conjI)
next
  show "(\<forall>a n f args w0 out w1.
          (n = ''createLinearGradient'' \<or> n = ''addColorStop'' \<or> n = ''fillRect'') \<longrightarrow>
          method_of h w0 a n = Some f \<longrightarrow> f args w0 = (out, w1) \<longrightarrow> obs w1 = obs w0)
       \<and> (\<forall>a v w0 out w1. put_prop h a ''fillStyle'' v w0 = (out, w1) \<longrightarrow> obs w1 = obs w0)
       \<longrightarrow> obs (world_of (run h ctx w)) = obs w"
  proof
    assume laws: "(\<forall>a n f args w0 out w1.
          (n = ''createLinearGradient'' \<or> n = ''addColorStop'' \<or> n = ''fillRect'') \<longrightarrow>
          method_of h w0 a n = Some f \<longrightarrow> f args w0 = (out, w1) \<longrightarrow> obs w1 = obs w0)
       \<and> (\<forall>a v w0 out w1. put_prop h a ''fillStyle'' v w0 = (out, w1) \<longrightarrow> obs w1 = obs w0)"
    note L1 = laws[THEN conjunct1, rule_format]
    note L2 = laws[THEN conjunct2, rule_format]
    show "obs (world_of (run h ctx w)) = obs w"
    proof (rule run_keeps)
      fix a n f args w0 out w1
      assume "n = ''createLinearGradient'' \<or> n = ''addColorStop'' \<or> n = ''fillRect''"
        "method_of h w0 a n = Some f" "f args w0 = (out, w1)"
      then show "obs w1 = obs w0" by (rule L1)
    next
      fix a v w0 out w1
      assume "put_prop h a ''fillStyle'' v w0 = (out, w1)"
      then show "obs w1 = obs w0" by (rule L2)
    qed
  qed
qed

theorem touches_context_only_through_three_operations_witness:
  "methods_on (Obj 0) (events_of (run (canvas_host Map.empty) (Obj 0) canvas0))
      = [''createLinearGradient'', ''fillRect'']
   \<and> assignments (events_of (run (canvas_host Map.empty) (Obj 0) canvas0))
      = [(Obj 0, ''fillStyle'', Obj 1)]
   \<and> props (world_of (run (canvas_host Map.empty) (Obj 0) canvas0)) ''strokeStyle''
      = Some (Str ''#0000ff'')"
proof -
  have m: "methods_on (Obj 0) (events_of (run (canvas_host Map.empty) (Obj 0) canvas0))
      = [''createLinearGradient'', ''fillRect'']"
    by (simp add: canvas_run_events methods_on_def script_def script_rest_def)
  have a: "assignments (events_of (run (canvas_host Map.empty) (Obj 0) canvas0))
      = [(Obj 0, ''fillStyle'', Obj 1)]"
    by (simp add: canvas_run_events assignments_script)
  have l1: "\<forall>a n f args w0 out w1.
      (n = ''createLinearGradient'' \<or> n = ''addColorStop'' \<or> n = ''fillRect'') \<longrightarrow>
      method_of (canvas_host Map.empty) w0 a n = Some f \<longrightarrow> f args w0 = (out, w1) \<longrightarrow>
      (\<lambda>k. if k = ''fillStyle'' then None else props w1 k)
        = (\<lambda>k. if k = ''fillStyle'' then None else props w0 k)"
  proof (intro allI impI)
    fix a n f args w0 out w1
    assume "method_of (canvas_host Map.empty) w0 a n = Some f" "f args w0 = (out, w1)"
    then have "props w1 = props w0" by (rule canvas_method_keeps_props)
    then show "(\<lambda>k. if k = ''fillStyle'' then None else props w1 k)
        = (\<lambda>k. if k = ''fillStyle'' then None else props w0 k)"
      by (rule arg_cong[where f = "\<lambda>p k. if k = ''fillStyle'' then None else p k"])
  qed
  have l2: "\<forall>a v w0 out w1. put_prop (canvas_host Map.empty) a ''fillStyle'' v w0 = (out, w1) \<longrightarrow>
      (\<lambda>k. if k = ''fillStyle'' then None else props w1 k)
        = (\<lambda>k. if k = ''fillStyle'' then None else props w0 k)"
  proof (intro allI impI)
    fix a v w0 out w1
    assume p: "put_prop (canvas_host Map.empty) a ''fillStyle'' v w0 = (out, w1)"
    have "(if k = ''fillStyle'' then None else props w1 k)
        = (if k = ''fillStyle'' then None else props w0 k)" for k
      using canvas_put_keeps_other_props[OF p, of k] by simp
    then show "(\<lambda>k. if k = ''fillStyle'' then None else props w1 k)
        = (\<lambda>k. if k = ''fillStyle'' then None else props w0 k)" by (rule ext)
  qed
  from touches_context_only_through_three_operations[of "canvas_host Map.empty" "Obj 0" canvas0
      "\<lambda>w k. if k = ''fillStyle'' then None else props w k",
      THEN conjunct2, THEN mp, OF conjI, OF l1 l2]
  have "(\<lambda>k. if k = ''fillStyle'' then None
              else props (world_of (run (canvas_host Map.empty) (Obj 0) canvas0)) k)
      = (\<lambda>k. if k = ''fillStyle'' then None else props canvas0 k)" .
  then have eqk: "(if k = ''fillStyle'' then None
              else props (world_of (run (canvas_host Map.empty) (Obj 0) canvas0)) k)
      = (if k = ''fillStyle'' then None else props canvas0 k)" for k
    by (rule fun_cong)
  have fr: "\<forall>k. k \<noteq> ''fillStyle'' \<longrightarrow>
        props (world_of (run (canvas_host Map.empty) (Obj 0) canvas0)) k = props canvas0 k"
  proof (intro allI impI)
    fix k :: string
    assume "k \<noteq> ''fillStyle''"
    with eqk[of k]
    show "props (world_of (run (canvas_host Map.empty) (Obj 0) canvas0)) k = props canvas0 k"
      by simp
  qed
  then have "props (world_of (run (canvas_host Map.empty) (Obj 0) canvas0)) ''strokeStyle''
      = props canvas0 ''strokeStyle''" by simp
  then have "props (world_of (run (canvas_host Map.empty) (Obj 0) canvas0)) ''strokeStyle''
      = Some (Str ''#0000ff'')" by (simp add: canvas0_def)
  with m a show ?thesis by (intro conjI)
qed

end
